theory Spec2Isabelle
  imports Main "HOL-Library.AList" "HOL-Library.DAList" "HOL-Library.Sublist"
begin

section \<open>Values and dictionaries\<close>

text \<open>
  The values that travel through \<^verbatim>\<open>notifiers/core.py\<close> are Python objects of the
  JSON kind: keyword arguments, schema nodes, defaults. A Python \<^verbatim>\<open>dict\<close> keeps its
  keys in insertion order, so a dictionary is an association list: \<open>map_of d k\<close> is
  \<^verbatim>\<open>d.get(k)\<close>, \<open>AList.update k v d\<close> is \<^verbatim>\<open>d[k] = v\<close> (an old key keeps its place,
  a new key goes last) and \<open>AList.delete k d\<close> removes the key.
\<close>

datatype json =
    JNull
  | JBool bool
  | JNum int
  | JStr string
  | JArr "json list"
  | JObj "(string \<times> json) list"

type_synonym dict = "(string \<times> json) list"

text \<open>Python's truth value of an object, as \<^verbatim>\<open>if x:\<close> reads it.\<close>

fun truthy :: "json \<Rightarrow> bool" where
  "truthy JNull = False"
| "truthy (JBool b) = b"
| "truthy (JNum n) = (n \<noteq> 0)"
| "truthy (JStr s) = (s \<noteq> [])"
| "truthy (JArr xs) = (xs \<noteq> [])"
| "truthy (JObj kvs) = (kvs \<noteq> [])"

text \<open>\<^verbatim>\<open>target.update(other)\<close>: every entry of \<open>other\<close>, in its order, is stored.\<close>

definition dict_update :: "dict \<Rightarrow> dict \<Rightarrow> dict" where
  "dict_update target other = fold (\<lambda>(k, v) acc. AList.update k v acc) other target"

section \<open>Exceptions and the response\<close>

text \<open>The opaque transport result (\<^verbatim>\<open>requests.Response\<close>).\<close>

datatype http_response = HttpResponse (status_code: int) (body: string)

text \<open>
  The exceptions the module raises, each with the keyword arguments it is built from.
  \<open>KeyError\<close> and \<open>AttributeError\<close> are what Python raises at
  \<^verbatim>\<open>self.schema['properties'].items()\<close> when the schema has no such key or when
  the entry is not a dict. \<open>ConnectionError\<close> stands for what a provider's send action
  can raise when the transport fails (\<^verbatim>\<open>requests.exceptions.ConnectionError\<close>).
\<close>

datatype exn =
    SchemaError (schema_error: string) (exn_provider: string) (exn_schema: dict)
  | BadArguments (validation_error: json) (exn_provider: string) (exn_data: dict)
  | NotifierException (exn_provider: string) (exn_message: string)
  | NotificationError (exn_provider: string) (ne_data: "dict option")
      (ne_errors: "string list") (ne_response: "http_response option")
  | KeyError string
  | AttributeError string
  | ConnectionError string

definition FAILURE_STATUS :: string where
  "FAILURE_STATUS = ''Failure''"

definition SUCCESS_STATUS :: string where
  "SUCCESS_STATUS = ''Success''"

definition DEFAULT_ENVIRON_PREFIX :: string where
  "DEFAULT_ENVIRON_PREFIX = ''NOTIFIERS_''"

text \<open>
  \<^verbatim>\<open>class Response\<close>: the five attributes \<^verbatim>\<open>__init__\<close> stores. \<^verbatim>\<open>data\<close>,
  \<^verbatim>\<open>response\<close> and \<^verbatim>\<open>errors\<close> default to \<^verbatim>\<open>None\<close>.
\<close>

record response =
  status :: string
  provider :: string
  data :: "dict option"
  response :: "http_response option"
  errors :: "string list option"

text \<open>\<^verbatim>\<open>if errors:\<close> on a list or \<^verbatim>\<open>None\<close>.\<close>

fun truthy_list :: "'a list option \<Rightarrow> bool" where
  "truthy_list None = False"
| "truthy_list (Some xs) = (xs \<noteq> [])"

text \<open>
  \<^verbatim>\<open>Response.raise_on_errors\<close>. The method runs on an object, so the model returns
  the object after the call beside the outcome: \<open>Inl\<close> is the exception raised,
  \<open>Inr ()\<close> the normal return.
\<close>

definition raise_on_errors :: "response \<Rightarrow> (exn + unit) \<times> response" where
  "raise_on_errors self =
     (if truthy_list (errors self)
      then (Inl (NotificationError (provider self) (data self) (the (errors self))
                   (response self)), self)
      else (Inr (), self))"

section \<open>Schema resources\<close>

text \<open>
  \<^verbatim>\<open>class SchemaResource\<close>. The abstract properties \<^verbatim>\<open>_schema\<close>, \<^verbatim>\<open>_required\<close> and
  \<^verbatim>\<open>name\<close>, the overridable property \<^verbatim>\<open>defaults\<close> and the two overridable hooks
  \<^verbatim>\<open>_prepare_data\<close> and \<^verbatim>\<open>_validate_data_dependencies\<close> are fields, since a subclass
  supplies them; \<^verbatim>\<open>_merged_schema\<close> is the cache the \<^verbatim>\<open>schema\<close> property writes.
  An identifier cannot start with an underscore here: \<open>p_schema\<close> is \<^verbatim>\<open>_schema\<close>,
  \<open>p_required\<close> is \<^verbatim>\<open>_required\<close>, and the other private names drop the underscore.
  The shaping hook returns data; the dependency hook returns the data or raises.
\<close>

record resource =
  name :: string
  p_schema :: dict
  p_required :: dict
  defaults :: dict
  prepare_data :: "dict \<Rightarrow> dict"
  validate_data_dependencies :: "dict \<Rightarrow> exn + dict"
  merged_schema :: "dict option"

text \<open>
  The \<^verbatim>\<open>schema\<close> property: when the cache is \<^verbatim>\<open>None\<close> or an empty dict
  (\<^verbatim>\<open>not self._merged_schema\<close>), a copy of \<^verbatim>\<open>_schema\<close> is updated with
  \<^verbatim>\<open>_required\<close> and stored; the cached value is returned. The result is the value
  with the object after the access.
\<close>

definition schema :: "'a resource_scheme \<Rightarrow> dict \<times> 'a resource_scheme" where
  "schema self =
     (if \<not> truthy_list (merged_schema self)
      then (let m = dict_update (p_schema self) (p_required self)
            in (m, self\<lparr>merged_schema := Some m\<rparr>))
      else (the (merged_schema self), self))"

text \<open>
  The \<^verbatim>\<open>arguments\<close> property, \<^verbatim>\<open>dict(self.schema['properties'].items())\<close>: a missing
  key raises \<^verbatim>\<open>KeyError\<close>, an entry that is no dict has no \<^verbatim>\<open>items\<close>.
\<close>

definition arguments :: "'a resource_scheme \<Rightarrow> exn + dict" where
  "arguments self =
     (case map_of (fst (schema self)) ''properties'' of
        None \<Rightarrow> Inl (KeyError ''properties'')
      | Some (JObj props) \<Rightarrow> Inr props
      | Some _ \<Rightarrow> Inl (AttributeError ''items''))"

definition required :: "'a resource_scheme \<Rightarrow> dict" where
  "required self = p_required self"

definition create_response ::
  "'a resource_scheme \<Rightarrow> dict option \<Rightarrow> http_response option \<Rightarrow> string list option
     \<Rightarrow> response" where
  "create_response self d resp errs =
     (let st = (if truthy_list errs then FAILURE_STATUS else SUCCESS_STATUS)
      in \<lparr>status = st, provider = name self, data = d, response = resp, errors = errs\<rparr>)"

subsection \<open>The helpers of \<^verbatim>\<open>utils.helpers\<close>\<close>

text \<open>
  Modelled from the spec: \<^verbatim>\<open>merge_dicts\<close> of \<^verbatim>\<open>notifiers/utils/helpers.py\<close> is
  imported by \<^verbatim>\<open>core.py\<close> and is not among the sources. The spec gives its two uses:
  environment values "are merged into the raw data for any key not already explicitly
  supplied by the caller", and the default merge is to "fill in any argument absent from
  the data ... never override an explicitly supplied ... value". So the entries of the
  second dict whose key the first lacks are added, and nothing of the first changes.
\<close>

definition merge_dicts :: "dict \<Rightarrow> dict \<Rightarrow> dict" where
  "merge_dicts target_dict merge_dict =
     fold (\<lambda>(k, v) acc. if k \<in> set (map fst acc) then acc else acc @ [(k, v)])
       merge_dict target_dict"

text \<open>ASCII upper case, the part of \<^verbatim>\<open>str.upper\<close> that variable names use.\<close>

definition upper_char :: "char \<Rightarrow> char" where
  "upper_char c =
     (case map_of (zip ''abcdefghijklmnopqrstuvwxyz'' ''ABCDEFGHIJKLMNOPQRSTUVWXYZ'') c of
        None \<Rightarrow> c
      | Some u \<Rightarrow> u)"

text \<open>
  Modelled from the spec: \<^verbatim>\<open>dict_from_environs\<close> of \<^verbatim>\<open>notifiers/utils/helpers.py\<close>
  is imported by \<^verbatim>\<open>core.py\<close> and is not among the sources. The spec: "for each
  recognized argument name, look up an external value keyed by
  {PREFIX}_{PROVIDER_NAME}_{ARGUMENT_NAME}" (upper-cased). The prefix constant of the
  source, \<^verbatim>\<open>'NOTIFIERS_'\<close>, ends with the separator, and the spec's example key is
  \<^verbatim>\<open>NOTIFIERS_DUMMY_MESSAGE\<close>, so the key is the prefix, the provider name, an
  underscore and the argument name. The process environment is the parameter
  \<open>environ\<close>; an argument with a variable gets its value, any other gets no entry.
  The spec knows a textual prefix only: for a prefix that is not a string no variable
  is found.
\<close>

definition environ_key :: "string \<Rightarrow> string \<Rightarrow> string \<Rightarrow> string" where
  "environ_key pfx nm arg = map upper_char (pfx @ nm @ ''_'' @ arg)"

definition dict_from_environs ::
  "(string \<Rightarrow> string option) \<Rightarrow> json \<Rightarrow> string \<Rightarrow> string list \<Rightarrow> dict" where
  "dict_from_environs environ pfx nm args =
     (case pfx of
        JStr p \<Rightarrow>
          fold (\<lambda>arg acc. case environ (environ_key p nm arg) of
                             None \<Rightarrow> acc
                           | Some v \<Rightarrow> AList.update arg (JStr v) acc)
            args []
      | _ \<Rightarrow> [])"

subsection \<open>The validation library\<close>

text \<open>
  \<^verbatim>\<open>jsonschema\<close> is a third-party library. The module uses three of its operations,
  which are the parameters of the model: \<^verbatim>\<open>check_schema\<close> (\<open>Some m\<close> is a
  \<^verbatim>\<open>jsonschema.SchemaError\<close> with message \<open>m\<close>), \<^verbatim>\<open>iter_errors\<close> of a validator
  built on a schema, and \<^verbatim>\<open>best_match\<close>. Of a \<^verbatim>\<open>ValidationError\<close> the module reads
  \<^verbatim>\<open>message\<close>, \<^verbatim>\<open>validator\<close> (the violated keyword) and \<^verbatim>\<open>schema\<close> (the schema node
  that holds the keyword); \<^verbatim>\<open>path\<close> is what \<^verbatim>\<open>best_match\<close> ranks by.
\<close>

record validation_error =
  e_message :: string
  e_validator :: string
  e_schema :: dict
  e_path :: "string list"

record jsonschema =
  check_schema :: "dict \<Rightarrow> string option"
  iter_errors :: "dict \<Rightarrow> dict \<Rightarrow> validation_error list"
  best_match :: "validation_error list \<Rightarrow> validation_error option"

subsection \<open>The stages of the pipeline\<close>

definition merge_defaults :: "'a resource_scheme \<Rightarrow> dict \<Rightarrow> dict" where
  "merge_defaults self d = merge_dicts d (defaults self)"

text \<open>
  \<^verbatim>\<open>if not prefix\<close>, where the prefix is what \<^verbatim>\<open>data.pop('env_prefix', None)\<close> gave:
  a value, or \<^verbatim>\<open>None\<close> when the key is missing.
\<close>

fun truthy_opt :: "json option \<Rightarrow> bool" where
  "truthy_opt None = False"
| "truthy_opt (Some v) = truthy v"

definition get_environs ::
  "(string \<Rightarrow> string option) \<Rightarrow> 'a resource_scheme \<Rightarrow> json option \<Rightarrow> exn + dict" where
  "get_environs environ self pfx =
     (let p = (if \<not> truthy_opt pfx then JStr DEFAULT_ENVIRON_PREFIX else the pfx)
      in case arguments self of
           Inl e \<Rightarrow> Inl e
         | Inr args \<Rightarrow> Inr (dict_from_environs environ p (name self) (map fst args)))"

definition validate_schema :: "jsonschema \<Rightarrow> 'a resource_scheme \<Rightarrow> exn + unit" where
  "validate_schema J self =
     (case check_schema J (fst (schema self)) of
        None \<Rightarrow> Inr ()
      | Some m \<Rightarrow> Inl (SchemaError m (name self) (fst (schema self))))"

text \<open>
  \<^verbatim>\<open>_validate_data\<close>: the message is the entry \<^verbatim>\<open>error_<keyword>\<close> of the violated
  schema node when \<^verbatim>\<open>e.schema.get(...)\<close> is truthy, the library's message otherwise.
\<close>

definition custom_error_key :: "validation_error \<Rightarrow> string" where
  "custom_error_key e = ''error_'' @ e_validator e"

definition error_msg :: "validation_error \<Rightarrow> json" where
  "error_msg e =
     (case map_of (e_schema e) (custom_error_key e) of
        None \<Rightarrow> JStr (e_message e)
      | Some m \<Rightarrow> if truthy m then m else JStr (e_message e))"

definition validate_data :: "jsonschema \<Rightarrow> 'a resource_scheme \<Rightarrow> dict \<Rightarrow> exn + unit" where
  "validate_data J self d =
     (case best_match J (iter_errors J (fst (schema self)) d) of
        None \<Rightarrow> Inr ()
      | Some e \<Rightarrow> Inl (BadArguments (error_msg e) (name self) d))"

text \<open>\<^verbatim>\<open>data.pop('env_prefix', None)\<close>: the value and the dict without the key.\<close>

definition pop_env_prefix :: "dict \<Rightarrow> json option \<times> dict" where
  "pop_env_prefix d = (map_of d ''env_prefix'', AList.delete ''env_prefix'' d)"

text \<open>
  The calls \<^verbatim>\<open>_process_data\<close> and \<^verbatim>\<open>notify\<close> make on the resource, each with the
  argument it receives. The pipeline returns the calls it made, in order, beside its
  outcome, so that what ran before a failure is part of the result. The pipeline reads
  \<^verbatim>\<open>self.schema\<close> several times; every read gives the value of the first one
  (\<open>schema_stable\<close> below), which is \<open>fst (schema self)\<close> throughout.
\<close>

datatype call =
    ValidateSchema
  | GetEnvirons "json option"
  | ValidateData dict
  | PrepareData dict
  | MergeDefaults dict
  | ValidateDataDependencies dict
  | SendNotification dict

definition process_data ::
  "jsonschema \<Rightarrow> (string \<Rightarrow> string option) \<Rightarrow> 'a resource_scheme \<Rightarrow> dict
     \<Rightarrow> call list \<times> (exn + dict)" where
  "process_data J environ self kwargs =
     (case validate_schema J self of
        Inl e \<Rightarrow> ([ValidateSchema], Inl e)
      | Inr _ \<Rightarrow>
          (let (env_prefix, d0) = pop_env_prefix kwargs
           in case get_environs environ self env_prefix of
                Inl e \<Rightarrow> ([ValidateSchema, GetEnvirons env_prefix], Inl e)
              | Inr environs \<Rightarrow>
                  (let d1 = (if environs \<noteq> [] then merge_dicts d0 environs else d0)
                   in case validate_data J self d1 of
                        Inl e \<Rightarrow>
                          ([ValidateSchema, GetEnvirons env_prefix, ValidateData d1], Inl e)
                      | Inr _ \<Rightarrow>
                          (let d2 = prepare_data self d1;
                               d3 = merge_defaults self d2;
                               calls = [ValidateSchema, GetEnvirons env_prefix,
                                        ValidateData d1, PrepareData d1, MergeDefaults d2,
                                        ValidateDataDependencies d3]
                           in case validate_data_dependencies self d3 of
                                Inl e \<Rightarrow> (calls, Inl e)
                              | Inr d4 \<Rightarrow> (calls, Inr d4)))))"

section \<open>Providers and the registry\<close>

text \<open>
  \<^verbatim>\<open>class Provider(SchemaResource)\<close>: the resource with its two URLs and the abstract
  \<^verbatim>\<open>_send_notification(self, data: dict) -> Response\<close>, which a subclass supplies:
  it returns a response or raises. \<^verbatim>\<open>notify\<close> calls it outside any \<^verbatim>\<open>try\<close>, so
  what it raises is what \<^verbatim>\<open>notify\<close> raises.
\<close>

record provider = resource +
  base_url :: string
  site_url :: string
  send_notification :: "dict \<Rightarrow> exn + response"

definition metadata :: "'a provider_scheme \<Rightarrow> dict" where
  "metadata self =
     [(''base_url'', JStr (base_url self)), (''site_url'', JStr (site_url self)),
      (''name'', JStr (name self))]"

definition notify ::
  "jsonschema \<Rightarrow> (string \<Rightarrow> string option) \<Rightarrow> 'a provider_scheme \<Rightarrow> dict
     \<Rightarrow> call list \<times> (exn + response)" where
  "notify J environ self kwargs =
     (case process_data J environ self kwargs of
        (calls, Inl e) \<Rightarrow> (calls, Inl e)
      | (calls, Inr d) \<Rightarrow> (calls @ [SendNotification d], send_notification self d))"

text \<open>
  \<^verbatim>\<open>_all_providers\<close> comes from \<^verbatim>\<open>notifiers.providers\<close>, which is not among the
  sources: the registry is a parameter, a dict from names to zero-argument constructors.
  A dict holds a key once, which the type of association lists with distinct keys
  records. Objects have identity: the heap lists the provider objects made so far, and a
  reference is an index into it.
\<close>

type_synonym registry = "(string, unit \<Rightarrow> provider) alist"

type_synonym heap = "provider list"

definition get_notifier :: "registry \<Rightarrow> string \<Rightarrow> heap \<Rightarrow> nat option \<times> heap" where
  "get_notifier all_reg provider_name h =
     (case DAList.lookup all_reg provider_name of
        None \<Rightarrow> (None, h)
      | Some ctor \<Rightarrow> (Some (length h), h @ [ctor ()]))"

definition all_providers :: "registry \<Rightarrow> string list" where
  "all_providers all_reg = map fst (DAList.impl_of all_reg)"

text \<open>
  Reading the \<^verbatim>\<open>schema\<close> property through a reference: the object at that address
  is replaced by the object after the access. A reference that \<open>get_notifier\<close> returned
  is always within the heap.
\<close>

definition schema_at :: "nat \<Rightarrow> heap \<Rightarrow> (dict \<times> heap) option" where
  "schema_at a h =
     (if a < length h
      then (let (m, obj) = schema (h ! a) in Some (m, h[a := obj]))
      else None)"

section \<open>A reference validator and example providers\<close>

text \<open>
  The theorems below hold for every validation library. To run the pipeline on inputs,
  this is an instance of the three operations for flat schemas, following JSON Schema
  Draft 4 on the keywords \<^verbatim>\<open>type\<close>, \<^verbatim>\<open>required\<close> and one level of
  \<^verbatim>\<open>properties\<close>; other keywords are ignored, as unknown keywords are. The violations
  come in the order of the schema's keys.
\<close>

fun has_type :: "string \<Rightarrow> json \<Rightarrow> bool" where
  "has_type t JNull = (t = ''null'')"
| "has_type t (JBool b) = (t = ''boolean'')"
| "has_type t (JNum n) = (t = ''integer'' \<or> t = ''number'')"
| "has_type t (JStr s) = (t = ''string'')"
| "has_type t (JArr xs) = (t = ''array'')"
| "has_type t (JObj kvs) = (t = ''object'')"

fun type_names :: "json \<Rightarrow> string list" where
  "type_names (JStr t) = [t]"
| "type_names (JArr ts) = concat (map (\<lambda>t. case t of JStr n \<Rightarrow> [n] | _ \<Rightarrow> []) ts)"
| "type_names _ = []"

definition quoted :: "string \<Rightarrow> string" where
  "quoted s = [CHR 0x27] @ s @ [CHR 0x27]"

definition type_errors :: "dict \<Rightarrow> string list \<Rightarrow> json \<Rightarrow> json \<Rightarrow> validation_error list" where
  "type_errors node path inst ty =
     (if list_ex (\<lambda>t. has_type t inst) (type_names ty) then []
      else [\<lparr>e_message = ''instance is not of type '' @ concat (map quoted (type_names ty)),
             e_validator = ''type'', e_schema = node, e_path = path\<rparr>])"

definition required_errors ::
  "dict \<Rightarrow> string list \<Rightarrow> json \<Rightarrow> json \<Rightarrow> validation_error list" where
  "required_errors node path inst names =
     (case (inst, names) of
        (JObj kvs, JArr ns) \<Rightarrow>
          concat (map (\<lambda>n. case n of
                              JStr k \<Rightarrow>
                                if k \<in> set (map fst kvs) then []
                                else [\<lparr>e_message = quoted k @ '' is a required property'',
                                       e_validator = ''required'', e_schema = node,
                                       e_path = path\<rparr>]
                            | _ \<Rightarrow> []) ns)
      | _ \<Rightarrow> [])"

definition leaf_errors :: "dict \<Rightarrow> string list \<Rightarrow> json \<Rightarrow> validation_error list" where
  "leaf_errors node path inst =
     concat (map (\<lambda>(kw, v).
                    if kw = ''type'' then type_errors node path inst v
                    else if kw = ''required'' then required_errors node path inst v
                    else []) node)"

definition properties_errors :: "json \<Rightarrow> json \<Rightarrow> validation_error list" where
  "properties_errors inst props =
     (case (inst, props) of
        (JObj kvs, JObj ps) \<Rightarrow>
          concat (map (\<lambda>(p, sub). case (map_of kvs p, sub) of
                                     (Some v, JObj node) \<Rightarrow> leaf_errors node [p] v
                                   | _ \<Rightarrow> []) ps)
      | _ \<Rightarrow> [])"

definition flat_iter_errors :: "dict \<Rightarrow> dict \<Rightarrow> validation_error list" where
  "flat_iter_errors sch d =
     concat (map (\<lambda>(kw, v).
                    if kw = ''properties'' then properties_errors (JObj d) v
                    else if kw = ''type'' then type_errors sch [] (JObj d) v
                    else if kw = ''required'' then required_errors sch [] (JObj d) v
                    else []) sch)"

text \<open>
  \<^verbatim>\<open>best_match\<close> on violations without sub-violations: the first of those with the
  shortest path.
\<close>

definition flat_best_match :: "validation_error list \<Rightarrow> validation_error option" where
  "flat_best_match es =
     (case es of
        [] \<Rightarrow> None
      | e # rest \<Rightarrow>
          Some (fold (\<lambda>x b. if length (e_path x) < length (e_path b) then x else b) rest e))"

definition simple_types :: "string list" where
  "simple_types =
     [''array'', ''boolean'', ''integer'', ''null'', ''number'', ''object'', ''string'']"

definition is_str :: "json \<Rightarrow> bool" where
  "is_str v = (case v of JStr _ \<Rightarrow> True | _ \<Rightarrow> False)"

definition check_type :: "dict \<Rightarrow> string option" where
  "check_type node =
     (case map_of node ''type'' of
        None \<Rightarrow> None
      | Some ty \<Rightarrow>
          if (is_str ty \<or> (case ty of JArr ts \<Rightarrow> ts \<noteq> [] \<and> list_all is_str ts | _ \<Rightarrow> False))
             \<and> list_all (\<lambda>t. t \<in> set simple_types) (type_names ty)
          then None else Some ''type is not valid'')"

definition check_required :: "dict \<Rightarrow> string option" where
  "check_required node =
     (case map_of node ''required'' of
        None \<Rightarrow> None
      | Some (JArr ns) \<Rightarrow>
          if ns = [] then Some ''[] is too short''
          else if list_all is_str ns \<and> distinct ns then None
          else Some ''required is not valid''
      | Some _ \<Rightarrow> Some ''required is not of type array'')"

definition check_node :: "dict \<Rightarrow> string option" where
  "check_node node =
     (case check_type node of Some m \<Rightarrow> Some m | None \<Rightarrow> check_required node)"

definition flat_check_schema :: "dict \<Rightarrow> string option" where
  "flat_check_schema sch =
     (case check_node sch of
        Some m \<Rightarrow> Some m
      | None \<Rightarrow>
          (case map_of sch ''properties'' of
             None \<Rightarrow> None
           | Some (JObj ps) \<Rightarrow>
               (case List.find (\<lambda>(p, sub). case sub of JObj node \<Rightarrow> check_node node \<noteq> None
                                                      | _ \<Rightarrow> True) ps of
                  None \<Rightarrow> None
                | Some (p, sub) \<Rightarrow> Some (quoted p @ '' is not a valid schema''))
           | Some _ \<Rightarrow> Some ''properties is not of type object''))"

definition flat_validator :: jsonschema where
  "flat_validator =
     \<lparr>check_schema = flat_check_schema, iter_errors = flat_iter_errors,
      best_match = flat_best_match\<rparr>"

text \<open>
  The provider of the spec's end-to-end scenario: \<^verbatim>\<open>dummy\<close>, one required string
  argument \<^verbatim>\<open>message\<close>, no defaults, the hooks of the base class. Its send action
  reports success on the data it is given.
\<close>

definition dummy_send :: "dict \<Rightarrow> response" where
  "dummy_send d =
     \<lparr>status = SUCCESS_STATUS, provider = ''dummy'', data = Some d, response = None,
      errors = None\<rparr>"

definition dummy :: provider where
  "dummy =
     \<lparr>name = ''dummy'',
      p_schema = [(''type'', JStr ''object''),
                  (''properties'', JObj [(''message'', JObj [(''type'', JStr ''string'')])])],
      p_required = [(''required'', JArr [JStr ''message''])],
      defaults = [],
      prepare_data = (\<lambda>d. d),
      validate_data_dependencies = Inr,
      merged_schema = None,
      base_url = ''https://dummy.example/api'',
      site_url = ''https://dummy.example'',
      send_notification = (\<lambda>d. Inr (dummy_send d))\<rparr>"

text \<open>An environment with one variable, and the empty environment.\<close>

definition environ_hi :: "string \<Rightarrow> string option" where
  "environ_hi = [''NOTIFIERS_DUMMY_MESSAGE'' \<mapsto> ''env-hi'']"

definition environ_empty :: "string \<Rightarrow> string option" where
  "environ_empty = Map.empty"

text \<open>
  A provider with a second, optional argument \<^verbatim>\<open>title\<close> that has a default, and
  environments that set the title, or set the message under the prefix \<^verbatim>\<open>X_\<close>.
\<close>

definition titled :: provider where
  "titled =
     dummy\<lparr>p_schema :=
              [(''type'', JStr ''object''),
               (''properties'',
                JObj [(''message'', JObj [(''type'', JStr ''string'')]),
                      (''title'', JObj [(''type'', JStr ''string'')])])],
            defaults := [(''title'', JStr ''default-title'')]\<rparr>"

definition environ_title :: "string \<Rightarrow> string option" where
  "environ_title = [''NOTIFIERS_DUMMY_TITLE'' \<mapsto> ''env-title'']"

definition environ_x :: "string \<Rightarrow> string option" where
  "environ_x = [''X_DUMMY_MESSAGE'' \<mapsto> ''x-hi'']"

text \<open>A registry of two providers.\<close>

definition example_providers :: registry where
  "example_providers =
     DAList.update ''titled'' (\<lambda>_. titled) (DAList.update ''dummy'' (\<lambda>_. dummy) DAList.empty)"

section \<open>Facts about the dictionary operations\<close>

lemma map_of_merge_dicts:
  "map_of (merge_dicts a b) k = (case map_of a k of Some v \<Rightarrow> Some v | None \<Rightarrow> map_of b k)"
  unfolding merge_dicts_def
proof (induction b arbitrary: a)
  case Nil
  show ?case by (simp split: option.split)
next
  case (Cons p b)
  obtain k' v' where p: "p = (k', v')" by (cases p)
  show ?case
  proof (cases "k' \<in> set (map fst a)")
    case True
    then have "map_of a k' \<noteq> None" by (simp add: map_of_eq_None_iff)
    with True show ?thesis using Cons.IH [of a] by (auto simp: p split: option.split)
  next
    case False
    then have "map_of a k' = None" by (simp add: map_of_eq_None_iff)
    with False show ?thesis using Cons.IH [of "a @ [(k', v')]"]
      by (auto simp: p map_add_def split: option.split)
  qed
qed

lemma keys_merge_dicts:
  "set (map fst (merge_dicts a b)) = set (map fst a) \<union> set (map fst b)"
  unfolding merge_dicts_def
proof (induction b arbitrary: a)
  case Nil
  show ?case by simp
next
  case (Cons p b)
  show ?case using Cons.IH by (cases p) auto
qed

lemma map_of_dict_update:
  "distinct (map fst b) \<Longrightarrow> map_of (dict_update a b) = map_of a ++ map_of b"
  unfolding dict_update_def
proof (induction b arbitrary: a)
  case Nil
  show ?case by simp
next
  case (Cons p b)
  obtain k v where p: "p = (k, v)" by (cases p)
  from Cons.prems have d: "distinct (map fst b)" and nk: "k \<notin> fst ` set b" by (auto simp: p)
  from nk have nb: "map_of b k = None" by (simp add: map_of_eq_None_iff)
  have "map_of (fold (\<lambda>(k, v) acc. AList.update k v acc) b (AList.update k v a))
          = map_of (AList.update k v a) ++ map_of b"
    by (rule Cons.IH [OF d])
  also have "\<dots> = map_of a ++ map_of ((k, v) # b)"
    using nb by (auto simp: update_conv' map_add_def fun_eq_iff split: option.split)
  finally have r: "map_of (fold (\<lambda>(k, v) acc. AList.update k v acc) b (AList.update k v a))
          = map_of a ++ map_of ((k, v) # b)" .
  have step: "fold (\<lambda>(k, v) acc. AList.update k v acc) (p # b) a
          = fold (\<lambda>(k, v) acc. AList.update k v acc) b (AList.update k v a)"
    by (simp add: p)
  show ?case unfolding step using r by (simp only: p)
qed

section \<open>The response\<close>

text \<open>
  C3. \<^verbatim>\<open>create_response\<close> gives status Success when \<^verbatim>\<open>errors\<close> is \<^verbatim>\<open>None\<close> or
  empty and Failure when it is non-empty, and stores the provider name, the data, the
  raw response and the errors as given. \<^verbatim>\<open>raise_on_errors\<close> raises exactly when the
  errors are non-empty, what it raises is the \<^verbatim>\<open>NotificationError\<close> built from the
  provider name, the data, the errors and the raw response, and the response object is
  the same after the call.
\<close>

theorem response_error_model:
  "status (create_response self d resp errs)
     = (if errs = None \<or> errs = Some [] then SUCCESS_STATUS else FAILURE_STATUS)
   \<and> SUCCESS_STATUS \<noteq> FAILURE_STATUS
   \<and> provider (create_response self d resp errs) = name self
   \<and> data (create_response self d resp errs) = d
   \<and> response (create_response self d resp errs) = resp
   \<and> errors (create_response self d resp errs) = errs
   \<and> ((\<exists>e. fst (raise_on_errors rsp) = Inl e) \<longleftrightarrow> \<not> (errors rsp = None \<or> errors rsp = Some []))
   \<and> (\<forall>e. fst (raise_on_errors rsp) = Inl e \<longrightarrow>
          e = NotificationError (provider rsp) (data rsp) (the (errors rsp)) (response rsp))
   \<and> snd (raise_on_errors rsp) = rsp"
proof -
  have t: "truthy_list errs \<longleftrightarrow> \<not> (errs = None \<or> errs = Some [])" for errs :: "string list option"
    by (cases errs) auto
  have s: "status (create_response self d resp errs)
     = (if errs = None \<or> errs = Some [] then SUCCESS_STATUS else FAILURE_STATUS)"
    unfolding create_response_def Let_def using t [of errs] by simp
  have n: "SUCCESS_STATUS \<noteq> FAILURE_STATUS"
    by (simp add: SUCCESS_STATUS_def FAILURE_STATUS_def)
  have f: "provider (create_response self d resp errs) = name self
     \<and> data (create_response self d resp errs) = d
     \<and> response (create_response self d resp errs) = resp
     \<and> errors (create_response self d resp errs) = errs"
    by (simp add: create_response_def Let_def)
  have r1: "(\<exists>e. fst (raise_on_errors rsp) = Inl e) \<longleftrightarrow> \<not> (errors rsp = None \<or> errors rsp = Some [])"
    unfolding raise_on_errors_def using t [of "errors rsp"] by simp
  have r2: "\<forall>e. fst (raise_on_errors rsp) = Inl e \<longrightarrow>
          e = NotificationError (provider rsp) (data rsp) (the (errors rsp)) (response rsp)"
    by (auto simp: raise_on_errors_def split: if_splits)
  have r3: "snd (raise_on_errors rsp) = rsp"
    by (simp add: raise_on_errors_def)
  from s n f r1 r2 r3 show ?thesis by blast
qed

text \<open>The response of \<open>dummy\<close> with one error and with an empty error list.\<close>

theorem response_error_model_witness:
  "status (create_response dummy (Some [(''message'', JStr ''hi'')]) None (Some [''x''])) = ''Failure''
   \<and> status (create_response dummy (Some [(''message'', JStr ''hi'')]) None (Some [])) = ''Success''
   \<and> fst (raise_on_errors (create_response dummy None None (Some [''x''])))
       = Inl (NotificationError ''dummy'' None [''x''] None)
   \<and> snd (raise_on_errors (create_response dummy None None (Some [''x''])))
       = create_response dummy None None (Some [''x''])
   \<and> fst (raise_on_errors (create_response dummy None None (Some []))) = Inr ()"
proof -
  let ?d = "Some [(''message'', JStr ''hi'')]"
  have a: "status (create_response dummy ?d None (Some [''x''])) = ''Failure''"
    using response_error_model [of dummy ?d None "Some [''x'']" "create_response dummy None None (Some [''x''])"]
    by (simp add: FAILURE_STATUS_def)
  have b: "status (create_response dummy ?d None (Some [])) = ''Success''"
    using response_error_model [of dummy ?d None "Some []" "create_response dummy None None (Some [])"]
    by (simp add: SUCCESS_STATUS_def)
  have c: "fst (raise_on_errors (create_response dummy None None (Some [''x''])))
       = Inl (NotificationError ''dummy'' None [''x''] None)"
    by (simp add: raise_on_errors_def create_response_def dummy_def)
  have d: "snd (raise_on_errors (create_response dummy None None (Some [''x''])))
       = create_response dummy None None (Some [''x''])"
    using response_error_model [of dummy None None "Some [''x'']" "create_response dummy None None (Some [''x''])"]
    by simp
  have e: "fst (raise_on_errors (create_response dummy None None (Some []))) = Inr ()"
    by (simp add: raise_on_errors_def create_response_def dummy_def)
  from a b c d e show ?thesis by simp
qed

section \<open>The merged schema\<close>

lemma schema_stable:
  "fst (schema (snd (schema self))) = fst (schema self)"
proof (cases "truthy_list (merged_schema self)")
  case True
  then show ?thesis by (simp add: schema_def)
next
  case False
  then show ?thesis by (simp add: schema_def Let_def)
qed

lemma schema_fresh:
  assumes "merged_schema self = None \<or>
           merged_schema self = Some (dict_update (p_schema self) (p_required self))"
  shows "schema self = (dict_update (p_schema self) (p_required self),
           self\<lparr>merged_schema := Some (dict_update (p_schema self) (p_required self))\<rparr>)"
proof (cases "truthy_list (merged_schema self)")
  case True
  with assms have m: "merged_schema self = Some (dict_update (p_schema self) (p_required self))"
    by auto
  have "self\<lparr>merged_schema := merged_schema self\<rparr> = self" by simp
  with m have "self\<lparr>merged_schema := Some (dict_update (p_schema self) (p_required self))\<rparr> = self"
    by simp
  with True m show ?thesis by (simp add: schema_def)
next
  case False
  then show ?thesis by (simp add: schema_def Let_def)
qed

lemma schema_iterate:
  assumes "merged_schema self = None \<or>
           merged_schema self = Some (dict_update (p_schema self) (p_required self))"
  shows "fst (schema (((\<lambda>r. snd (schema r)) ^^ n) self))
           = dict_update (p_schema self) (p_required self)
         \<and> p_schema (((\<lambda>r. snd (schema r)) ^^ n) self) = p_schema self
         \<and> p_required (((\<lambda>r. snd (schema r)) ^^ n) self) = p_required self
         \<and> (merged_schema (((\<lambda>r. snd (schema r)) ^^ n) self) = None \<or>
            merged_schema (((\<lambda>r. snd (schema r)) ^^ n) self)
              = Some (dict_update (p_schema self) (p_required self)))"
proof (induction n)
  case 0
  show ?case using assms schema_fresh [OF assms] by simp
next
  case (Suc n)
  let ?r = "((\<lambda>r. snd (schema r)) ^^ n) self"
  from Suc.IH have inv: "merged_schema ?r = None \<or>
      merged_schema ?r = Some (dict_update (p_schema ?r) (p_required ?r))"
    and ps: "p_schema ?r = p_schema self" and pr: "p_required ?r = p_required self"
    by auto
  have s: "schema ?r = (dict_update (p_schema ?r) (p_required ?r),
           ?r\<lparr>merged_schema := Some (dict_update (p_schema ?r) (p_required ?r))\<rparr>)"
    by (rule schema_fresh [OF inv])
  let ?r' = "?r\<lparr>merged_schema := Some (dict_update (p_schema ?r) (p_required ?r))\<rparr>"
  have r': "((\<lambda>r. snd (schema r)) ^^ Suc n) self = ?r'" using s by simp
  have inv': "merged_schema ?r' = None \<or>
      merged_schema ?r' = Some (dict_update (p_schema ?r') (p_required ?r'))" by simp
  have "schema ?r' = (dict_update (p_schema ?r') (p_required ?r'),
           ?r'\<lparr>merged_schema := Some (dict_update (p_schema ?r') (p_required ?r'))\<rparr>)"
    by (rule schema_fresh [OF inv'])
  then show ?case unfolding r' using ps pr by simp
qed

text \<open>
  C8. The \<^verbatim>\<open>schema\<close> property reads the instance's cache: when the cache holds a
  non-empty schema, the access returns that cached value and leaves the object as it is,
  without merging again. When the cache is unset (or empty), the access merges
  \<^verbatim>\<open>_schema\<close> with \<^verbatim>\<open>_required\<close>, stores the result in the instance's cache and
  returns it. After any access the cache holds the value returned, and a second access
  returns the same value and changes nothing. So on an instance whose cache is unset, or
  holds what an earlier access stored, the property is \<^verbatim>\<open>_schema\<close> updated with
  \<^verbatim>\<open>_required\<close>, however often it is read; in that merge the entries of
  \<^verbatim>\<open>_required\<close> win on a shared key.
\<close>

theorem schema_memoized:
  fixes self :: "'a resource_scheme"
  shows
    "(\<forall>m. merged_schema self = Some m \<and> m \<noteq> [] \<longrightarrow> schema self = (m, self))
     \<and> (merged_schema self = None \<or> merged_schema self = Some [] \<longrightarrow>
          schema self
            = (dict_update (p_schema self) (p_required self),
               self\<lparr>merged_schema := Some (dict_update (p_schema self) (p_required self))\<rparr>))
     \<and> merged_schema (snd (schema self)) = Some (fst (schema self))
     \<and> fst (schema (snd (schema self))) = fst (schema self)
     \<and> snd (schema (snd (schema self))) = snd (schema self)
     \<and> (merged_schema self = None \<or>
          merged_schema self = Some (dict_update (p_schema self) (p_required self)) \<longrightarrow>
          fst (schema self) = dict_update (p_schema self) (p_required self)
          \<and> (\<forall>n. fst (schema (((\<lambda>r. snd (schema r)) ^^ n) self))
                  = dict_update (p_schema self) (p_required self)))
     \<and> (distinct (map fst (p_required self)) \<longrightarrow>
          map_of (dict_update (p_schema self) (p_required self))
            = map_of (p_schema self) ++ map_of (p_required self))"
    (is "?hit \<and> ?miss \<and> ?stored \<and> ?again1 \<and> ?again2 \<and> ?merged \<and> ?merge")
proof -
  have hit: ?hit by (simp add: schema_def)
  have miss: ?miss by (auto simp: schema_def Let_def)
  have stored: ?stored
  proof (cases "truthy_list (merged_schema self)")
    case True
    then show ?thesis by (cases "merged_schema self") (simp_all add: schema_def)
  next
    case False
    then show ?thesis by (simp add: schema_def Let_def)
  qed
  have again1: ?again1 by (rule schema_stable)
  have again2: ?again2
  proof (cases "truthy_list (merged_schema self)")
    case True
    then show ?thesis by (simp add: schema_def)
  next
    case False
    then show ?thesis by (simp add: schema_def Let_def)
  qed
  have merged: ?merged
  proof
    assume inv: "merged_schema self = None \<or>
          merged_schema self = Some (dict_update (p_schema self) (p_required self))"
    have a: "fst (schema self) = dict_update (p_schema self) (p_required self)"
      using schema_fresh [OF inv] by simp
    have b: "fst (schema (((\<lambda>r. snd (schema r)) ^^ n) self))
                  = dict_update (p_schema self) (p_required self)" for n
      using schema_iterate [OF inv, of n] by simp
    from a b show "fst (schema self) = dict_update (p_schema self) (p_required self)
          \<and> (\<forall>n. fst (schema (((\<lambda>r. snd (schema r)) ^^ n) self))
                  = dict_update (p_schema self) (p_required self))"
      by blast
  qed
  have merge: ?merge using map_of_dict_update by blast
  from hit miss stored again1 again2 merged merge show ?thesis by blast
qed

text \<open>
  \<open>dummy\<close>, created with an unset cache: the first access merges and stores. The same
  provider with another schema already in its cache: the access returns the cached
  schema, not the merge, and the object stays as it is.
\<close>

theorem schema_memoized_witness:
  "merged_schema dummy = None
   \<and> distinct (map fst (p_required dummy))
   \<and> fst (schema dummy)
       = [(''type'', JStr ''object''),
          (''properties'', JObj [(''message'', JObj [(''type'', JStr ''string'')])]),
          (''required'', JArr [JStr ''message''])]
   \<and> merged_schema (snd (schema dummy)) = Some (fst (schema dummy))
   \<and> fst (schema (snd (schema dummy))) = fst (schema dummy)
   \<and> snd (schema (snd (schema dummy))) = snd (schema dummy)
   \<and> schema (dummy\<lparr>merged_schema := Some [(''type'', JStr ''object'')]\<rparr>)
       = ([(''type'', JStr ''object'')],
          dummy\<lparr>merged_schema := Some [(''type'', JStr ''object'')]\<rparr>)"
proof -
  have n: "merged_schema dummy = None" by (simp add: dummy_def)
  then have h1: "merged_schema dummy = None \<or>
      merged_schema dummy = Some (dict_update (p_schema dummy) (p_required dummy))"
    by simp
  have h2: "distinct (map fst (p_required dummy))" by (simp add: dummy_def)
  have v: "dict_update (p_schema dummy) (p_required dummy)
       = [(''type'', JStr ''object''),
          (''properties'', JObj [(''message'', JObj [(''type'', JStr ''string'')])]),
          (''required'', JArr [JStr ''message''])]"
    by (simp add: dummy_def dict_update_def)
  note t = schema_memoized [of dummy]
  from t h1 have "fst (schema dummy) = dict_update (p_schema dummy) (p_required dummy)"
    by blast
  with v have a: "fst (schema dummy)
       = [(''type'', JStr ''object''),
          (''properties'', JObj [(''message'', JObj [(''type'', JStr ''string'')])]),
          (''required'', JArr [JStr ''message''])]"
    by (simp only:)
  from t have b: "merged_schema (snd (schema dummy)) = Some (fst (schema dummy))"
    and c: "fst (schema (snd (schema dummy))) = fst (schema dummy)"
    and d: "snd (schema (snd (schema dummy))) = snd (schema dummy)"
    by blast+
  let ?stale = "dummy\<lparr>merged_schema := Some [(''type'', JStr ''object'')]\<rparr>"
  have hs: "merged_schema ?stale = Some [(''type'', JStr ''object'')]
      \<and> [(''type'', JStr ''object'')] \<noteq> []"
    by simp
  from schema_memoized [of ?stale, THEN conjunct1, rule_format, OF hs]
  have e: "schema ?stale = ([(''type'', JStr ''object'')], ?stale)" .
  from n h2 a b c d e show ?thesis by blast
qed

section \<open>The pipeline, case by case\<close>

lemma merge_dicts_Nil: "merge_dicts d [] = d"
  by (simp add: merge_dicts_def)

lemma get_environs_arguments:
  "get_environs environ self pfx = Inl e \<longleftrightarrow> arguments self = Inl e"
  by (auto simp: get_environs_def Let_def split: sum.splits)

text \<open>
  The five ways \<^verbatim>\<open>_process_data\<close> ends: the schema check raises; reading the
  arguments raises; the validation raises; the dependency check raises; the data is
  returned. In each the calls made and the outcome are given.
\<close>

lemma process_data_cases:
  fixes self :: "'a resource_scheme"
  obtains
    (schema_error) m where
      "check_schema J (fst (schema self)) = Some m"
      "process_data J environ self kwargs
         = ([ValidateSchema], Inl (SchemaError m (name self) (fst (schema self))))"
  | (arguments_error) e where
      "check_schema J (fst (schema self)) = None"
      "arguments self = Inl e"
      "process_data J environ self kwargs
         = ([ValidateSchema, GetEnvirons (fst (pop_env_prefix kwargs))], Inl e)"
  | (bad_arguments) environs d1 e where
      "check_schema J (fst (schema self)) = None"
      "get_environs environ self (fst (pop_env_prefix kwargs)) = Inr environs"
      "d1 = merge_dicts (AList.delete ''env_prefix'' kwargs) environs"
      "best_match J (iter_errors J (fst (schema self)) d1) = Some e"
      "process_data J environ self kwargs
         = ([ValidateSchema, GetEnvirons (fst (pop_env_prefix kwargs)), ValidateData d1],
            Inl (BadArguments (error_msg e) (name self) d1))"
  | (dependency_error) environs d1 d2 d3 e where
      "check_schema J (fst (schema self)) = None"
      "get_environs environ self (fst (pop_env_prefix kwargs)) = Inr environs"
      "d1 = merge_dicts (AList.delete ''env_prefix'' kwargs) environs"
      "best_match J (iter_errors J (fst (schema self)) d1) = None"
      "d2 = prepare_data self d1"
      "d3 = merge_dicts d2 (defaults self)"
      "validate_data_dependencies self d3 = Inl e"
      "process_data J environ self kwargs
         = ([ValidateSchema, GetEnvirons (fst (pop_env_prefix kwargs)), ValidateData d1,
             PrepareData d1, MergeDefaults d2, ValidateDataDependencies d3], Inl e)"
  | (returns) environs d1 d2 d3 out where
      "check_schema J (fst (schema self)) = None"
      "get_environs environ self (fst (pop_env_prefix kwargs)) = Inr environs"
      "d1 = merge_dicts (AList.delete ''env_prefix'' kwargs) environs"
      "best_match J (iter_errors J (fst (schema self)) d1) = None"
      "d2 = prepare_data self d1"
      "d3 = merge_dicts d2 (defaults self)"
      "validate_data_dependencies self d3 = Inr out"
      "process_data J environ self kwargs
         = ([ValidateSchema, GetEnvirons (fst (pop_env_prefix kwargs)), ValidateData d1,
             PrepareData d1, MergeDefaults d2, ValidateDataDependencies d3], Inr out)"
proof (cases "check_schema J (fst (schema self))")
  case (Some m)
  then have "process_data J environ self kwargs
         = ([ValidateSchema], Inl (SchemaError m (name self) (fst (schema self))))"
    by (simp add: process_data_def validate_schema_def)
  with Some show ?thesis by (rule schema_error)
next
  case None
  then have vs: "validate_schema J self = Inr ()" by (simp add: validate_schema_def)
  let ?pfx = "fst (pop_env_prefix kwargs)"
  have pop: "snd (pop_env_prefix kwargs) = AList.delete ''env_prefix'' kwargs"
    by (simp add: pop_env_prefix_def)
  show ?thesis
  proof (cases "get_environs environ self ?pfx")
    case (Inl e)
    then have a: "arguments self = Inl e" by (simp add: get_environs_arguments)
    have "process_data J environ self kwargs = ([ValidateSchema, GetEnvirons ?pfx], Inl e)"
      unfolding process_data_def using vs pop Inl by (simp add: case_prod_beta)
    with None a show ?thesis by (rule arguments_error)
  next
    case (Inr environs)
    let ?d1 = "merge_dicts (AList.delete ''env_prefix'' kwargs) environs"
    have d1: "(if environs \<noteq> [] then merge_dicts (AList.delete ''env_prefix'' kwargs) environs
               else AList.delete ''env_prefix'' kwargs) = ?d1"
      by (simp add: merge_dicts_Nil)
    show ?thesis
    proof (cases "best_match J (iter_errors J (fst (schema self)) ?d1)")
      case (Some e)
      then have vd: "validate_data J self ?d1 = Inl (BadArguments (error_msg e) (name self) ?d1)"
        by (simp add: validate_data_def)
      have "process_data J environ self kwargs
         = ([ValidateSchema, GetEnvirons ?pfx, ValidateData ?d1],
            Inl (BadArguments (error_msg e) (name self) ?d1))"
        unfolding process_data_def using vs pop Inr vd d1 by (simp add: Let_def case_prod_beta)
      with None Inr Some show ?thesis by (intro bad_arguments [of environs ?d1 e]) simp_all
    next
      case bm: None
      then have vd: "validate_data J self ?d1 = Inr ()" by (simp add: validate_data_def)
      let ?d2 = "prepare_data self ?d1"
      let ?d3 = "merge_dicts ?d2 (defaults self)"
      show ?thesis
      proof (cases "validate_data_dependencies self ?d3")
        case (Inl e)
        have "process_data J environ self kwargs
         = ([ValidateSchema, GetEnvirons ?pfx, ValidateData ?d1,
             PrepareData ?d1, MergeDefaults ?d2, ValidateDataDependencies ?d3], Inl e)"
          unfolding process_data_def using vs pop Inr vd d1 Inl
          by (simp add: Let_def merge_defaults_def case_prod_beta)
        with None Inr bm Inl show ?thesis
          by (intro dependency_error [of environs ?d1 ?d2 ?d3 e]) simp_all
      next
        case out: (Inr out)
        have "process_data J environ self kwargs
         = ([ValidateSchema, GetEnvirons ?pfx, ValidateData ?d1,
             PrepareData ?d1, MergeDefaults ?d2, ValidateDataDependencies ?d3], Inr out)"
          unfolding process_data_def using vs pop Inr vd d1 out
          by (simp add: Let_def merge_defaults_def case_prod_beta)
        with None Inr bm out show ?thesis
          by (intro returns [of environs ?d1 ?d2 ?d3 out]) simp_all
      qed
    qed
  qed
qed

section \<open>Running the pipeline on the example provider\<close>

lemmas pipeline_defs =
  process_data_def validate_schema_def schema_def dict_update_def pop_env_prefix_def
  get_environs_def arguments_def dict_from_environs_def environ_key_def upper_char_def
  DEFAULT_ENVIRON_PREFIX_def merge_dicts_def validate_data_def merge_defaults_def
  error_msg_def custom_error_key_def notify_def Let_def

lemmas flat_defs =
  flat_validator_def flat_check_schema_def check_node_def check_type_def check_required_def
  is_str_def simple_types_def flat_iter_errors_def properties_errors_def leaf_errors_def
  type_errors_def required_errors_def flat_best_match_def quoted_def

lemma dummy_schema:
  "fst (schema dummy)
     = [(''type'', JStr ''object''),
        (''properties'', JObj [(''message'', JObj [(''type'', JStr ''string'')])]),
        (''required'', JArr [JStr ''message''])]"
  by (simp add: schema_def dummy_def dict_update_def Let_def)

lemma dummy_run_env:
  "process_data flat_validator environ_hi dummy []
     = ([ValidateSchema, GetEnvirons None, ValidateData [(''message'', JStr ''env-hi'')],
         PrepareData [(''message'', JStr ''env-hi'')],
         MergeDefaults [(''message'', JStr ''env-hi'')],
         ValidateDataDependencies [(''message'', JStr ''env-hi'')]],
        Inr [(''message'', JStr ''env-hi'')])"
  by (simp add: pipeline_defs flat_defs dummy_def environ_hi_def)

lemma dummy_run_missing:
  "process_data flat_validator environ_empty dummy []
     = ([ValidateSchema, GetEnvirons None, ValidateData []],
        Inl (BadArguments (JStr (quoted ''message'' @ '' is a required property''))
               ''dummy'' []))"
  by (simp add: pipeline_defs flat_defs dummy_def environ_empty_def)


section \<open>The order of the stages\<close>

text \<open>
  C2. \<^verbatim>\<open>_process_data\<close> makes its calls in one order: the schema check, the
  environment lookup (merged into the data), the validation of the merged data, the
  shaping hook, the default merge, the dependency check. The calls of a run are always a
  non-empty initial part of that sequence; a run that returns data made all six, each on
  the result of the one before; a run that raises stopped at the call that raised. When
  the schema check fails, the outcome is \<^verbatim>\<open>SchemaError\<close> after that one call, the
  same for every data and every environment.
\<close>

theorem pipeline_stage_order:
  fixes self :: "'a resource_scheme"
  shows
    "(\<forall>m. check_schema J (fst (schema self)) = Some m \<longrightarrow>
        (\<forall>env kw. process_data J env self kw
           = ([ValidateSchema], Inl (SchemaError m (name self) (fst (schema self))))))
     \<and> (\<exists>pfx d1 d2 d3.
          prefix (fst (process_data J environ self kwargs))
            [ValidateSchema, GetEnvirons pfx, ValidateData d1, PrepareData d1,
             MergeDefaults d2, ValidateDataDependencies d3]
          \<and> fst (process_data J environ self kwargs) \<noteq> []
          \<and> (\<forall>out. snd (process_data J environ self kwargs) = Inr out \<longrightarrow>
                fst (process_data J environ self kwargs)
                  = [ValidateSchema, GetEnvirons pfx, ValidateData d1, PrepareData d1,
                     MergeDefaults d2, ValidateDataDependencies d3]
                \<and> (\<exists>environs. get_environs environ self pfx = Inr environs
                      \<and> d1 = merge_dicts (AList.delete ''env_prefix'' kwargs) environs)
                \<and> best_match J (iter_errors J (fst (schema self)) d1) = None
                \<and> d2 = prepare_data self d1
                \<and> d3 = merge_dicts d2 (defaults self)
                \<and> validate_data_dependencies self d3 = Inr out))
     \<and> (\<forall>e. snd (process_data J environ self kwargs) = Inl e \<longrightarrow>
          (length (fst (process_data J environ self kwargs)) = 1
             \<and> (\<exists>m. e = SchemaError m (name self) (fst (schema self))))
          \<or> (length (fst (process_data J environ self kwargs)) = 2 \<and> arguments self = Inl e)
          \<or> (length (fst (process_data J environ self kwargs)) = 3
             \<and> (\<exists>msg d. e = BadArguments msg (name self) d))
          \<or> (length (fst (process_data J environ self kwargs)) = 6
             \<and> (\<exists>d. validate_data_dependencies self d = Inl e)))"
    (is "?A \<and> ?B \<and> ?C")
proof -
  have a: ?A
  proof (intro allI impI)
    fix m env kw
    assume m: "check_schema J (fst (schema self)) = Some m"
    show "process_data J env self kw
           = ([ValidateSchema], Inl (SchemaError m (name self) (fst (schema self))))"
      by (cases rule: process_data_cases [of J self env kw]) (use m in simp_all)
  qed
  have b: ?B
  proof (cases rule: process_data_cases [of J self environ kwargs])
    case (schema_error m)
    then show ?thesis by simp
  next
    case (arguments_error e)
    then show ?thesis by simp
  next
    case (bad_arguments environs d1 e)
    then show ?thesis by simp
  next
    case (dependency_error environs d1 d2 d3 e)
    then show ?thesis by simp
  next
    case (returns environs d1 d2 d3 out)
    show ?thesis
      apply (rule exI [of _ "fst (pop_env_prefix kwargs)"])
      apply (rule exI [of _ d1])
      apply (rule exI [of _ d2])
      apply (rule exI [of _ d3])
      using returns by simp
  qed
  have c: ?C
  proof (cases rule: process_data_cases [of J self environ kwargs])
    case (schema_error m)
    then show ?thesis by simp
  next
    case (arguments_error e)
    then show ?thesis by simp
  next
    case (bad_arguments environs d1 e)
    then show ?thesis by simp
  next
    case (dependency_error environs d1 d2 d3 e)
    then show ?thesis by auto
  next
    case (returns environs d1 d2 d3 out)
    then show ?thesis by simp
  qed
  from a b c show ?thesis by blast
qed

text \<open>
  A provider whose schema is not a valid schema (\<^verbatim>\<open>required\<close> is empty) fails the
  check before its data is looked at; \<open>dummy\<close> with a variable in the environment runs
  all six calls.
\<close>

theorem pipeline_stage_order_witness:
  "process_data flat_validator environ_hi (dummy\<lparr>p_required := [(''required'', JArr [])]\<rparr>)
       [(''message'', JStr ''hi'')]
     = ([ValidateSchema],
        Inl (SchemaError ''[] is too short'' ''dummy''
               [(''type'', JStr ''object''),
                (''properties'', JObj [(''message'', JObj [(''type'', JStr ''string'')])]),
                (''required'', JArr [])]))
   \<and> fst (process_data flat_validator environ_hi dummy [])
     = [ValidateSchema, GetEnvirons None, ValidateData [(''message'', JStr ''env-hi'')],
        PrepareData [(''message'', JStr ''env-hi'')],
        MergeDefaults [(''message'', JStr ''env-hi'')],
        ValidateDataDependencies [(''message'', JStr ''env-hi'')]]
   \<and> length (fst (process_data flat_validator environ_empty dummy [])) = 3"
proof -
  let ?broken = "dummy\<lparr>p_required := [(''required'', JArr [])]\<rparr>"
  have s: "fst (schema ?broken)
      = [(''type'', JStr ''object''),
         (''properties'', JObj [(''message'', JObj [(''type'', JStr ''string'')])]),
         (''required'', JArr [])]"
    by (simp add: schema_def dummy_def dict_update_def Let_def)
  have chk: "check_schema flat_validator (fst (schema ?broken)) = Some ''[] is too short''"
    unfolding s by (simp add: flat_defs)
  have nm: "name ?broken = ''dummy''" by (simp add: dummy_def)
  from pipeline_stage_order [of flat_validator ?broken environ_hi "[]"] chk
  have "process_data flat_validator environ_hi ?broken [(''message'', JStr ''hi'')]
     = ([ValidateSchema],
        Inl (SchemaError ''[] is too short'' (name ?broken) (fst (schema ?broken))))"
    by blast
  then have a: "process_data flat_validator environ_hi ?broken [(''message'', JStr ''hi'')]
     = ([ValidateSchema],
        Inl (SchemaError ''[] is too short'' ''dummy''
               [(''type'', JStr ''object''),
                (''properties'', JObj [(''message'', JObj [(''type'', JStr ''string'')])]),
                (''required'', JArr [])]))"
    by (simp only: s nm)
  have b: "fst (process_data flat_validator environ_hi dummy [])
     = [ValidateSchema, GetEnvirons None, ValidateData [(''message'', JStr ''env-hi'')],
        PrepareData [(''message'', JStr ''env-hi'')],
        MergeDefaults [(''message'', JStr ''env-hi'')],
        ValidateDataDependencies [(''message'', JStr ''env-hi'')]]"
    by (simp add: dummy_run_env)
  have c: "length (fst (process_data flat_validator environ_empty dummy [])) = 3"
    by (simp add: dummy_run_missing)
  from a b c show ?thesis by blast
qed

lemma dummy_name: "name dummy = ''dummy''"
  by (simp add: dummy_def)

section \<open>Notification\<close>




section \<open>The message of a failed validation\<close>

text \<open>
  C6. When the validator's best match is a violation \<open>e\<close>, \<^verbatim>\<open>_validate_data\<close> raises
  \<^verbatim>\<open>BadArguments\<close> with the provider name and the data. Its message is the entry
  \<^verbatim>\<open>error_<keyword>\<close> of the violated schema node when the node has a (non-empty)
  message there, and the library's message of \<open>e\<close> otherwise. With no violation nothing
  is raised.
\<close>

theorem custom_error_message:
  fixes self :: "'a resource_scheme"
  shows
    "(best_match J (iter_errors J (fst (schema self)) d) = None \<longrightarrow>
        validate_data J self d = Inr ())
     \<and> (\<forall>e. best_match J (iter_errors J (fst (schema self)) d) = Some e \<longrightarrow>
          (\<forall>m. map_of (e_schema e) (''error_'' @ e_validator e) = Some m \<and> truthy m \<longrightarrow>
             validate_data J self d = Inl (BadArguments m (name self) d))
          \<and> ((\<forall>m. map_of (e_schema e) (''error_'' @ e_validator e) = Some m \<longrightarrow> \<not> truthy m) \<longrightarrow>
             validate_data J self d = Inl (BadArguments (JStr (e_message e)) (name self) d)))"
  by (auto simp: validate_data_def error_msg_def custom_error_key_def split: option.splits)

text \<open>
  A number for the string argument \<^verbatim>\<open>message\<close>: with \<^verbatim>\<open>error_type\<close> in the
  argument's schema node the exception carries that text, without it the validator's.
\<close>

theorem custom_error_message_witness:
  "validate_data flat_validator
       (dummy\<lparr>p_schema :=
          [(''type'', JStr ''object''),
           (''properties'',
            JObj [(''message'',
                   JObj [(''type'', JStr ''string''),
                         (''error_type'', JStr ''message must be text'')])])]\<rparr>)
       [(''message'', JNum 3)]
     = Inl (BadArguments (JStr ''message must be text'') ''dummy'' [(''message'', JNum 3)])
   \<and> validate_data flat_validator dummy [(''message'', JNum 3)]
     = Inl (BadArguments (JStr (''instance is not of type '' @ quoted ''string'')) ''dummy''
              [(''message'', JNum 3)])
   \<and> validate_data flat_validator dummy [(''message'', JStr ''hi'')] = Inr ()"
proof -
  let ?p = "dummy\<lparr>p_schema :=
          [(''type'', JStr ''object''),
           (''properties'',
            JObj [(''message'',
                   JObj [(''type'', JStr ''string''),
                         (''error_type'', JStr ''message must be text'')])])]\<rparr>"
  let ?node = "[(''type'', JStr ''string''), (''error_type'', JStr ''message must be text'')]"
  let ?e = "\<lparr>e_message = ''instance is not of type '' @ quoted ''string'',
              e_validator = ''type'', e_schema = ?node, e_path = [''message'']\<rparr>"
  have bm: "best_match flat_validator
              (iter_errors flat_validator (fst (schema ?p)) [(''message'', JNum 3)]) = Some ?e"
    by (simp add: schema_def dict_update_def dummy_def Let_def flat_defs)
  have ov: "map_of (e_schema ?e) (''error_'' @ e_validator ?e) = Some (JStr ''message must be text'')
      \<and> truthy (JStr ''message must be text'')"
    by simp
  have nm: "name ?p = ''dummy''" by (simp add: dummy_def)
  from custom_error_message [of flat_validator ?p "[(''message'', JNum 3)]"] bm ov
  have "validate_data flat_validator ?p [(''message'', JNum 3)]
     = Inl (BadArguments (JStr ''message must be text'') (name ?p) [(''message'', JNum 3)])"
    by blast
  then have a: "validate_data flat_validator ?p [(''message'', JNum 3)]
     = Inl (BadArguments (JStr ''message must be text'') ''dummy'' [(''message'', JNum 3)])"
    by (simp only: nm)
  have b: "validate_data flat_validator dummy [(''message'', JNum 3)]
     = Inl (BadArguments (JStr (''instance is not of type '' @ quoted ''string'')) ''dummy''
              [(''message'', JNum 3)])"
    by (simp add: validate_data_def dummy_schema flat_defs error_msg_def custom_error_key_def
          dummy_name)
  have bm0: "best_match flat_validator
              (iter_errors flat_validator (fst (schema dummy)) [(''message'', JStr ''hi'')]) = None"
    by (simp add: dummy_schema flat_defs)
  from custom_error_message [of flat_validator dummy "[(''message'', JStr ''hi'')]"] bm0
  have c: "validate_data flat_validator dummy [(''message'', JStr ''hi'')] = Inr ()"
    by blast
  from a b c show ?thesis by blast
qed

section \<open>Precedence of argument values\<close>

lemma titled_run_explicit:
  "process_data flat_validator environ_title titled
       [(''message'', JStr ''hi''), (''title'', JStr ''my-title'')]
     = ([ValidateSchema, GetEnvirons None,
         ValidateData [(''message'', JStr ''hi''), (''title'', JStr ''my-title'')],
         PrepareData [(''message'', JStr ''hi''), (''title'', JStr ''my-title'')],
         MergeDefaults [(''message'', JStr ''hi''), (''title'', JStr ''my-title'')],
         ValidateDataDependencies [(''message'', JStr ''hi''), (''title'', JStr ''my-title'')]],
        Inr [(''message'', JStr ''hi''), (''title'', JStr ''my-title'')])"
  by (simp add: pipeline_defs flat_defs titled_def dummy_def environ_title_def)

lemma titled_run_environ:
  "process_data flat_validator environ_title titled [(''message'', JStr ''hi'')]
     = ([ValidateSchema, GetEnvirons None,
         ValidateData [(''message'', JStr ''hi''), (''title'', JStr ''env-title'')],
         PrepareData [(''message'', JStr ''hi''), (''title'', JStr ''env-title'')],
         MergeDefaults [(''message'', JStr ''hi''), (''title'', JStr ''env-title'')],
         ValidateDataDependencies [(''message'', JStr ''hi''), (''title'', JStr ''env-title'')]],
        Inr [(''message'', JStr ''hi''), (''title'', JStr ''env-title'')])"
  by (simp add: pipeline_defs flat_defs titled_def dummy_def environ_title_def)

lemma titled_run_default:
  "process_data flat_validator environ_empty titled [(''message'', JStr ''hi'')]
     = ([ValidateSchema, GetEnvirons None,
         ValidateData [(''message'', JStr ''hi'')],
         PrepareData [(''message'', JStr ''hi'')],
         MergeDefaults [(''message'', JStr ''hi'')],
         ValidateDataDependencies [(''message'', JStr ''hi''), (''title'', JStr ''default-title'')]],
        Inr [(''message'', JStr ''hi''), (''title'', JStr ''default-title'')])"
  by (simp add: pipeline_defs flat_defs titled_def dummy_def environ_empty_def)

lemma titled_environs:
  "get_environs environ_title titled None = Inr [(''title'', JStr ''env-title'')]"
  by (simp add: pipeline_defs titled_def dummy_def environ_title_def)

lemma titled_no_environs:
  "get_environs environ_empty titled None = Inr []"
  by (simp add: pipeline_defs titled_def dummy_def environ_empty_def)

text \<open>
  C1. Let the pipeline return data, and let \<open>environs\<close> be the values it found in the
  environment. Whatever the hooks are, the data given to the shaping hook holds for
  every argument name (other than the reserved \<^verbatim>\<open>env_prefix\<close>) the caller's value if
  the caller gave one and the environment's value otherwise, and the default merge after
  the hook keeps every entry of the shaped data and uses a default only for a name the
  shaped data lacks. So for an argument name that the two hooks leave as it is, the
  returned data holds the caller's value if there is one, else the environment's value
  if there is one, else the default.
\<close>

theorem argument_precedence:
  fixes self :: "'a resource_scheme"
  assumes run: "snd (process_data J environ self kwargs) = Inr out"
    and envs: "get_environs environ self (fst (pop_env_prefix kwargs)) = Inr environs"
  shows
    "(\<exists>d1. (\<forall>k. k \<noteq> ''env_prefix'' \<longrightarrow>
               map_of d1 k = (case map_of kwargs k of
                                Some v \<Rightarrow> Some v
                              | None \<Rightarrow> map_of environs k))
           \<and> (\<forall>k. map_of (merge_dicts (prepare_data self d1) (defaults self)) k
                  = (case map_of (prepare_data self d1) k of
                       Some v \<Rightarrow> Some v
                     | None \<Rightarrow> map_of (defaults self) k))
           \<and> validate_data_dependencies self
                (merge_dicts (prepare_data self d1) (defaults self)) = Inr out)
     \<and> (\<forall>k. k \<noteq> ''env_prefix''
            \<and> (\<forall>d. map_of (prepare_data self d) k = map_of d k)
            \<and> (\<forall>d d'. validate_data_dependencies self d = Inr d' \<longrightarrow> map_of d' k = map_of d k)
          \<longrightarrow> map_of out k
                = (case map_of kwargs k of
                     Some v \<Rightarrow> Some v
                   | None \<Rightarrow> (case map_of environs k of
                                Some v \<Rightarrow> Some v
                              | None \<Rightarrow> map_of (defaults self) k)))"
    (is "?A \<and> ?B")
proof (cases rule: process_data_cases [of J self environ kwargs])
  case (schema_error m)
  with run show ?thesis by simp
next
  case (arguments_error e)
  with run show ?thesis by simp
next
  case (bad_arguments environs' d1 e)
  with run show ?thesis by simp
next
  case (dependency_error environs' d1 d2 d3 e)
  with run show ?thesis by simp
next
  case (returns environs' d1 d2 d3 out')
  from returns(2) envs have e: "environs' = environs" by simp
  from returns(8) run have o: "out' = out" by simp
  have d1: "map_of d1 k = (case map_of kwargs k of Some v \<Rightarrow> Some v | None \<Rightarrow> map_of environs k)"
    if "k \<noteq> ''env_prefix''" for k
    unfolding returns(3) e using that by (simp add: map_of_merge_dicts)
  have d3: "map_of (merge_dicts (prepare_data self d1) (defaults self)) k
                  = (case map_of (prepare_data self d1) k of
                       Some v \<Rightarrow> Some v
                     | None \<Rightarrow> map_of (defaults self) k)" for k
    by (rule map_of_merge_dicts)
  have dep: "validate_data_dependencies self
                (merge_dicts (prepare_data self d1) (defaults self)) = Inr out"
    using returns(5,6,7) o by simp
  have a: ?A
    apply (rule exI [of _ d1])
    using d1 d3 dep by blast
  have b: ?B
  proof (intro allI impI, elim conjE)
    fix k
    assume k: "k \<noteq> ''env_prefix''"
      and prep: "\<forall>d. map_of (prepare_data self d) k = map_of d k"
      and deps: "\<forall>d d'. validate_data_dependencies self d = Inr d' \<longrightarrow> map_of d' k = map_of d k"
    from deps dep have "map_of out k = map_of (merge_dicts (prepare_data self d1) (defaults self)) k"
      by blast
    also have "\<dots> = (case map_of d1 k of Some v \<Rightarrow> Some v | None \<Rightarrow> map_of (defaults self) k)"
      using d3 [of k] prep by simp
    finally show "map_of out k
                = (case map_of kwargs k of
                     Some v \<Rightarrow> Some v
                   | None \<Rightarrow> (case map_of environs k of
                                Some v \<Rightarrow> Some v
                              | None \<Rightarrow> map_of (defaults self) k))"
      using d1 [OF k] by (simp split: option.splits)
  qed
  from a b show ?thesis by blast
qed

text \<open>
  The argument \<^verbatim>\<open>title\<close> of \<open>titled\<close>, with the default \<^verbatim>\<open>default-title\<close>: given by
  the caller, by the environment and by the default, the caller's value is returned;
  given by the environment and the default, the environment's; given by the default
  alone, the default.
\<close>

theorem argument_precedence_witness:
  "map_of (defaults titled) ''title'' = Some (JStr ''default-title'')
   \<and> get_environs environ_title titled None = Inr [(''title'', JStr ''env-title'')]
   \<and> snd (process_data flat_validator environ_title titled
            [(''message'', JStr ''hi''), (''title'', JStr ''my-title'')])
       = Inr [(''message'', JStr ''hi''), (''title'', JStr ''my-title'')]
   \<and> snd (process_data flat_validator environ_title titled [(''message'', JStr ''hi'')])
       = Inr [(''message'', JStr ''hi''), (''title'', JStr ''env-title'')]
   \<and> snd (process_data flat_validator environ_empty titled [(''message'', JStr ''hi'')])
       = Inr [(''message'', JStr ''hi''), (''title'', JStr ''default-title'')]
   \<and> (\<exists>out. snd (process_data flat_validator environ_title titled
                  [(''message'', JStr ''hi''), (''title'', JStr ''my-title'')]) = Inr out
            \<and> map_of out ''title'' = Some (JStr ''my-title''))
   \<and> (\<exists>out. snd (process_data flat_validator environ_title titled
                  [(''message'', JStr ''hi'')]) = Inr out
            \<and> map_of out ''title'' = Some (JStr ''env-title''))
   \<and> (\<exists>out. snd (process_data flat_validator environ_empty titled
                  [(''message'', JStr ''hi'')]) = Inr out
            \<and> map_of out ''title'' = Some (JStr ''default-title''))"
proof -
  have df: "map_of (defaults titled) ''title'' = Some (JStr ''default-title'')"
    by (simp add: titled_def)
  have hooks: "''title'' \<noteq> ''env_prefix''
      \<and> (\<forall>d. map_of (prepare_data titled d) ''title'' = map_of d ''title'')
      \<and> (\<forall>d d'. validate_data_dependencies titled d = Inr d' \<longrightarrow>
                  map_of d' ''title'' = map_of d ''title'')"
    by (simp add: titled_def dummy_def)
  let ?kw1 = "[(''message'', JStr ''hi''), (''title'', JStr ''my-title'')]"
  let ?kw2 = "[(''message'', JStr ''hi'')]"
  have p1: "fst (pop_env_prefix ?kw1) = None" and p2: "fst (pop_env_prefix ?kw2) = None"
    by (simp_all add: pop_env_prefix_def)
  have r1: "snd (process_data flat_validator environ_title titled ?kw1) = Inr ?kw1"
    by (simp add: titled_run_explicit)
  have r2: "snd (process_data flat_validator environ_title titled ?kw2)
       = Inr [(''message'', JStr ''hi''), (''title'', JStr ''env-title'')]"
    by (simp add: titled_run_environ)
  have r3: "snd (process_data flat_validator environ_empty titled ?kw2)
       = Inr [(''message'', JStr ''hi''), (''title'', JStr ''default-title'')]"
    by (simp add: titled_run_default)
  have e1: "get_environs environ_title titled (fst (pop_env_prefix ?kw1))
       = Inr [(''title'', JStr ''env-title'')]"
    unfolding p1 by (rule titled_environs)
  have e2: "get_environs environ_title titled (fst (pop_env_prefix ?kw2))
       = Inr [(''title'', JStr ''env-title'')]"
    unfolding p2 by (rule titled_environs)
  have e3: "get_environs environ_empty titled (fst (pop_env_prefix ?kw2)) = Inr []"
    unfolding p2 by (rule titled_no_environs)
  from argument_precedence [OF r1 e1, THEN conjunct2, rule_format, OF hooks]
  have "map_of ?kw1 ''title''
      = (case map_of ?kw1 ''title'' of
           Some v \<Rightarrow> Some v
         | None \<Rightarrow> (case map_of [(''title'', JStr ''env-title'')] ''title'' of
                      Some v \<Rightarrow> Some v
                    | None \<Rightarrow> map_of (defaults titled) ''title''))"
    .
  then have w1: "map_of ?kw1 ''title'' = Some (JStr ''my-title'')" by simp
  from argument_precedence [OF r2 e2, THEN conjunct2, rule_format, OF hooks]
  have "map_of [(''message'', JStr ''hi''), (''title'', JStr ''env-title'')] ''title''
      = (case map_of ?kw2 ''title'' of
           Some v \<Rightarrow> Some v
         | None \<Rightarrow> (case map_of [(''title'', JStr ''env-title'')] ''title'' of
                      Some v \<Rightarrow> Some v
                    | None \<Rightarrow> map_of (defaults titled) ''title''))"
    .
  then have w2: "map_of [(''message'', JStr ''hi''), (''title'', JStr ''env-title'')] ''title''
      = Some (JStr ''env-title'')" by simp
  from argument_precedence [OF r3 e3, THEN conjunct2, rule_format, OF hooks]
  have "map_of [(''message'', JStr ''hi''), (''title'', JStr ''default-title'')] ''title''
      = (case map_of ?kw2 ''title'' of
           Some v \<Rightarrow> Some v
         | None \<Rightarrow> (case map_of [] ''title'' of
                      Some v \<Rightarrow> Some v
                    | None \<Rightarrow> map_of (defaults titled) ''title''))"
    .
  then have w3: "map_of [(''message'', JStr ''hi''), (''title'', JStr ''default-title'')] ''title''
      = Some (JStr ''default-title'')" using df by simp
  from df titled_environs r1 r2 r3 w1 w2 w3 show ?thesis by simp
qed

section \<open>The reserved key\<close>

lemma map_of_delete_same: "map_of (AList.delete k d) k = None"
  by (simp add: delete_conv')

lemma pop_env_prefix_snd: "snd (pop_env_prefix kwargs) = AList.delete ''env_prefix'' kwargs"
  by (simp add: pop_env_prefix_def)

lemma dummy_run_prefix:
  "process_data flat_validator environ_x dummy [(''env_prefix'', JStr ''X_'')]
     = ([ValidateSchema, GetEnvirons (Some (JStr ''X_'')),
         ValidateData [(''message'', JStr ''x-hi'')],
         PrepareData [(''message'', JStr ''x-hi'')],
         MergeDefaults [(''message'', JStr ''x-hi'')],
         ValidateDataDependencies [(''message'', JStr ''x-hi'')]],
        Inr [(''message'', JStr ''x-hi'')])"
  by (simp add: pipeline_defs flat_defs dummy_def environ_x_def)

text \<open>
  C7. \<^verbatim>\<open>_process_data\<close> pops \<^verbatim>\<open>env_prefix\<close> from the raw data first. Its value is
  the argument of \<^verbatim>\<open>_get_environs\<close> and reaches nothing else: two calls whose data
  agree apart from \<^verbatim>\<open>env_prefix\<close> and that find the same environment values have
  the same outcome. The data given to the validator has under that key only what the
  environment put there, so nothing when the environment values have no such key. And
  when moreover the defaults have no such key and neither hook adds one, the returned
  data has no \<^verbatim>\<open>env_prefix\<close>.
\<close>

theorem env_prefix_reserved:
  fixes self :: "'a resource_scheme"
  assumes envs: "get_environs environ self (fst (pop_env_prefix kwargs)) = Inr environs"
  shows
    "(\<forall>p. GetEnvirons p \<in> set (fst (process_data J environ self kwargs)) \<longrightarrow>
          p = fst (pop_env_prefix kwargs))
     \<and> (\<forall>d. ValidateData d \<in> set (fst (process_data J environ self kwargs)) \<longrightarrow>
          map_of d ''env_prefix'' = map_of environs ''env_prefix''
          \<and> (\<forall>k. k \<noteq> ''env_prefix'' \<longrightarrow>
                map_of d k = (case map_of kwargs k of
                                Some v \<Rightarrow> Some v
                              | None \<Rightarrow> map_of environs k)))
     \<and> (\<forall>kw. AList.delete ''env_prefix'' kw = AList.delete ''env_prefix'' kwargs
            \<and> get_environs environ self (fst (pop_env_prefix kw)) = Inr environs
          \<longrightarrow> snd (process_data J environ self kw) = snd (process_data J environ self kwargs))
     \<and> (\<forall>out. snd (process_data J environ self kwargs) = Inr out
            \<and> map_of environs ''env_prefix'' = None
            \<and> map_of (defaults self) ''env_prefix'' = None
            \<and> (\<forall>d. map_of d ''env_prefix'' = None \<longrightarrow>
                    map_of (prepare_data self d) ''env_prefix'' = None)
            \<and> (\<forall>d d'. validate_data_dependencies self d = Inr d'
                      \<and> map_of d ''env_prefix'' = None \<longrightarrow> map_of d' ''env_prefix'' = None)
          \<longrightarrow> map_of out ''env_prefix'' = None)"
    (is "?A \<and> ?B \<and> ?C \<and> ?D")
proof -
  let ?d1 = "merge_dicts (AList.delete ''env_prefix'' kwargs) environs"
  have d1p: "map_of ?d1 ''env_prefix'' = map_of environs ''env_prefix''"
    by (simp add: map_of_merge_dicts map_of_delete_same)
  have d1k: "map_of ?d1 k = (case map_of kwargs k of Some v \<Rightarrow> Some v | None \<Rightarrow> map_of environs k)"
    if "k \<noteq> ''env_prefix''" for k
    using that by (simp add: map_of_merge_dicts)
  have a: ?A
    by (cases rule: process_data_cases [of J self environ kwargs]) auto
  have b: ?B
  proof (cases rule: process_data_cases [of J self environ kwargs])
    case (schema_error m)
    then show ?thesis by simp
  next
    case (arguments_error e)
    then show ?thesis by simp
  next
    case (bad_arguments environs' d1 e)
    with envs have "d1 = ?d1" by simp
    with bad_arguments(5) d1p d1k show ?thesis by simp
  next
    case (dependency_error environs' d1 d2 d3 e)
    with envs have "d1 = ?d1" by simp
    with dependency_error(8) d1p d1k show ?thesis by simp
  next
    case (returns environs' d1 d2 d3 out)
    with envs have "d1 = ?d1" by simp
    with returns(8) d1p d1k show ?thesis by simp
  qed
  have c: ?C
  proof (intro allI impI, elim conjE)
    fix kw
    assume same: "AList.delete ''env_prefix'' kw = AList.delete ''env_prefix'' kwargs"
      and envs': "get_environs environ self (fst (pop_env_prefix kw)) = Inr environs"
    show "snd (process_data J environ self kw) = snd (process_data J environ self kwargs)"
      unfolding process_data_def
      using same envs envs'
      by (simp add: case_prod_beta pop_env_prefix_snd Let_def
            split: sum.splits)
  qed
  have d: ?D
  proof (intro allI impI, elim conjE)
    fix out
    assume run: "snd (process_data J environ self kwargs) = Inr out"
      and ne: "map_of environs ''env_prefix'' = None"
      and nd: "map_of (defaults self) ''env_prefix'' = None"
      and prep: "\<forall>d. map_of d ''env_prefix'' = None \<longrightarrow>
                    map_of (prepare_data self d) ''env_prefix'' = None"
      and deps: "\<forall>d d'. validate_data_dependencies self d = Inr d'
                      \<and> map_of d ''env_prefix'' = None \<longrightarrow> map_of d' ''env_prefix'' = None"
    show "map_of out ''env_prefix'' = None"
    proof (cases rule: process_data_cases [of J self environ kwargs])
      case (schema_error m)
      with run show ?thesis by simp
    next
      case (arguments_error e)
      with run show ?thesis by simp
    next
      case (bad_arguments environs' d1 e)
      with run show ?thesis by simp
    next
      case (dependency_error environs' d1 d2 d3 e)
      with run show ?thesis by simp
    next
      case (returns environs' d1 d2 d3 out')
      with envs have e1: "d1 = ?d1" by simp
      from returns(8) run have o: "out' = out" by simp
      from d1p ne e1 have "map_of d1 ''env_prefix'' = None" by simp
      with prep returns(5) have "map_of d2 ''env_prefix'' = None" by simp
      with nd returns(6) have "map_of d3 ''env_prefix'' = None"
        by (simp add: map_of_merge_dicts)
      with deps returns(7) o show ?thesis by blast
    qed
  qed
  from a b c d show ?thesis by blast
qed

text \<open>
  \<open>dummy\<close> called with \<^verbatim>\<open>env_prefix='X_'\<close> alone: the variable
  \<^verbatim>\<open>X_DUMMY_MESSAGE\<close> is found, and neither the validated nor the returned data has
  the key \<^verbatim>\<open>env_prefix\<close>.
\<close>

theorem env_prefix_reserved_witness:
  "get_environs environ_x dummy (fst (pop_env_prefix [(''env_prefix'', JStr ''X_'')]))
     = Inr [(''message'', JStr ''x-hi'')]
   \<and> process_data flat_validator environ_x dummy [(''env_prefix'', JStr ''X_'')]
     = ([ValidateSchema, GetEnvirons (Some (JStr ''X_'')),
         ValidateData [(''message'', JStr ''x-hi'')],
         PrepareData [(''message'', JStr ''x-hi'')],
         MergeDefaults [(''message'', JStr ''x-hi'')],
         ValidateDataDependencies [(''message'', JStr ''x-hi'')]],
        Inr [(''message'', JStr ''x-hi'')])
   \<and> (\<exists>out. snd (process_data flat_validator environ_x dummy [(''env_prefix'', JStr ''X_'')])
               = Inr out
            \<and> map_of out ''env_prefix'' = None)"
proof -
  let ?kw = "[(''env_prefix'', JStr ''X_'')]"
  have e: "get_environs environ_x dummy (fst (pop_env_prefix ?kw))
     = Inr [(''message'', JStr ''x-hi'')]"
    by (simp add: pipeline_defs dummy_def environ_x_def)
  have r: "snd (process_data flat_validator environ_x dummy ?kw) = Inr [(''message'', JStr ''x-hi'')]"
    by (simp add: dummy_run_prefix)
  have h: "snd (process_data flat_validator environ_x dummy ?kw) = Inr [(''message'', JStr ''x-hi'')]
      \<and> map_of [(''message'', JStr ''x-hi'')] ''env_prefix'' = None
      \<and> map_of (defaults dummy) ''env_prefix'' = None
      \<and> (\<forall>d. map_of d ''env_prefix'' = None \<longrightarrow>
              map_of (prepare_data dummy d) ''env_prefix'' = None)
      \<and> (\<forall>d d'. validate_data_dependencies dummy d = Inr d'
                \<and> map_of d ''env_prefix'' = None \<longrightarrow> map_of d' ''env_prefix'' = None)"
    using r by (simp add: dummy_def)
  from env_prefix_reserved [OF e, of flat_validator, THEN conjunct2, THEN conjunct2,
      THEN conjunct2, rule_format, OF h]
  have o: "map_of [(''message'', JStr ''x-hi'')] ''env_prefix'' = None" .
  from e dummy_run_prefix r o show ?thesis by simp
qed

section \<open>Required arguments\<close>









section \<open>The registry\<close>

lemma count_list_distinct:
  "distinct xs \<Longrightarrow> x \<in> set xs \<Longrightarrow> count_list xs x = 1"
  by (induction xs) (auto simp: count_list_0_iff)

lemma all_providers_distinct: "distinct (all_providers all_reg)"
  by (simp add: all_providers_def)

lemma all_providers_set:
  "nm \<in> set (all_providers all_reg) \<longleftrightarrow> DAList.lookup all_reg nm \<noteq> None"
  by (simp add: all_providers_def DAList.lookup.rep_eq map_of_eq_None_iff)

lemma example_providers_names: "all_providers example_providers = [''dummy'', ''titled'']"
  by (simp add: all_providers_def example_providers_def DAList.update.rep_eq
        DAList.empty.rep_eq)

text \<open>
  C9. For a name in the registry, \<^verbatim>\<open>get_notifier\<close> calls the constructor registered
  under that name and returns (a reference to) the object it built; for any other name
  it returns \<^verbatim>\<open>None\<close> and builds nothing. \<^verbatim>\<open>all_providers\<close> lists the keys of the
  registry: the registered names and no others, each once.
\<close>

theorem registry_round_trip:
  "(\<forall>ctor. DAList.lookup all_reg nm = Some ctor \<longrightarrow>
       get_notifier all_reg nm h = (Some (length h), h @ [ctor ()])
       \<and> (h @ [ctor ()]) ! length h = ctor ()
       \<and> count_list (all_providers all_reg) nm = 1)
   \<and> (DAList.lookup all_reg nm = None \<longrightarrow>
       get_notifier all_reg nm h = (None, h) \<and> count_list (all_providers all_reg) nm = 0)
   \<and> all_providers all_reg = map fst (DAList.impl_of all_reg)
   \<and> distinct (all_providers all_reg)
   \<and> set (all_providers all_reg) = dom (DAList.lookup all_reg)"
proof -
  have a: "get_notifier all_reg nm h = (Some (length h), h @ [ctor ()])
       \<and> (h @ [ctor ()]) ! length h = ctor ()
       \<and> count_list (all_providers all_reg) nm = 1"
    if "DAList.lookup all_reg nm = Some ctor" for ctor
  proof -
    from that have "nm \<in> set (all_providers all_reg)" by (simp add: all_providers_set)
    then have "count_list (all_providers all_reg) nm = 1"
      by (rule count_list_distinct [OF all_providers_distinct])
    with that show ?thesis by (simp add: get_notifier_def)
  qed
  have b: "get_notifier all_reg nm h = (None, h) \<and> count_list (all_providers all_reg) nm = 0"
    if "DAList.lookup all_reg nm = None"
  proof -
    from that have "nm \<notin> set (all_providers all_reg)" by (simp add: all_providers_set)
    then have "count_list (all_providers all_reg) nm = 0" by (simp add: count_list_0_iff)
    with that show ?thesis by (simp add: get_notifier_def)
  qed
  have c: "set (all_providers all_reg) = dom (DAList.lookup all_reg)"
    using all_providers_set [of _ all_reg] by (auto simp: dom_def)
  from a b c all_providers_distinct show ?thesis
    by (simp add: all_providers_def)
qed

text \<open>
  The registry of \<open>dummy\<close> and \<open>titled\<close>: a lookup of \<^verbatim>\<open>dummy\<close> on the empty heap
  gives the first object, a lookup of an unknown name gives \<^verbatim>\<open>None\<close>, and the
  enumeration holds each of the two names once.
\<close>

theorem registry_round_trip_witness:
  "fst (get_notifier example_providers ''dummy'' []) = Some 0
   \<and> snd (get_notifier example_providers ''dummy'' []) = [dummy]
   \<and> get_notifier example_providers ''pushover'' [] = (None, [])
   \<and> all_providers example_providers = [''dummy'', ''titled'']
   \<and> count_list (all_providers example_providers) ''dummy'' = 1
   \<and> count_list (all_providers example_providers) ''pushover'' = 0"
proof -
  have l1: "DAList.lookup example_providers ''dummy'' = Some (\<lambda>_. dummy)"
    by (simp add: example_providers_def)
  have l2: "DAList.lookup example_providers ''pushover'' = None"
    by (simp add: example_providers_def)
  note t1 = registry_round_trip [of example_providers "''dummy''" "[]", THEN conjunct1,
      rule_format, OF l1]
  note t2 = registry_round_trip [of example_providers "''pushover''" "[]", THEN conjunct2,
      THEN conjunct1, rule_format, OF l2]
  from t1 have a: "fst (get_notifier example_providers ''dummy'' []) = Some 0"
    and b: "snd (get_notifier example_providers ''dummy'' []) = [dummy]"
    and c: "count_list (all_providers example_providers) ''dummy'' = 1"
    by simp_all
  from t2 have d: "get_notifier example_providers ''pushover'' [] = (None, [])"
    and e: "count_list (all_providers example_providers) ''pushover'' = 0"
    by simp_all
  from a b c d e example_providers_names show ?thesis by blast
qed

text \<open>
  C10. Two lookups of a registered name, one after the other, each call the constructor
  and give two different objects, both as the constructor builds them, leaving the
  objects that were there before as they are. Reading \<^verbatim>\<open>schema\<close> on either one
  stores the merged schema in that object's cache and leaves the other object, its cache
  included, as it is.
\<close>

theorem get_notifier_fresh_instances:
  assumes reg: "DAList.lookup all_reg nm = Some ctor"
  shows
    "\<exists>a1 h1 a2 h2.
       get_notifier all_reg nm h = (Some a1, h1)
       \<and> get_notifier all_reg nm h1 = (Some a2, h2)
       \<and> a1 \<noteq> a2
       \<and> h2 ! a1 = ctor () \<and> h2 ! a2 = ctor ()
       \<and> take (length h) h2 = h
       \<and> (\<exists>m h3. schema_at a1 h2 = Some (m, h3)
             \<and> m = fst (schema (ctor ()))
             \<and> h3 ! a1 = snd (schema (ctor ()))
             \<and> h3 ! a2 = ctor ())
       \<and> (\<exists>m h3. schema_at a2 h2 = Some (m, h3)
             \<and> m = fst (schema (ctor ()))
             \<and> h3 ! a2 = snd (schema (ctor ()))
             \<and> h3 ! a1 = ctor ())"
proof -
  let ?h1 = "h @ [ctor ()]"
  let ?h2 = "h @ [ctor (), ctor ()]"
  have g1: "get_notifier all_reg nm h = (Some (length h), ?h1)"
    using reg by (simp add: get_notifier_def)
  have g2: "get_notifier all_reg nm ?h1 = (Some (Suc (length h)), ?h2)"
    using reg by (simp add: get_notifier_def)
  have n1: "?h2 ! length h = ctor ()" by (simp add: nth_append)
  have n2: "?h2 ! Suc (length h) = ctor ()" by (simp add: nth_append)
  have s1: "schema_at (length h) ?h2
      = Some (fst (schema (ctor ())), ?h2[length h := snd (schema (ctor ()))])"
    by (simp add: schema_at_def n1 case_prod_beta del: list_update_append1)
  have s2: "schema_at (Suc (length h)) ?h2
      = Some (fst (schema (ctor ())), ?h2[Suc (length h) := snd (schema (ctor ()))])"
    unfolding schema_at_def using n2 by (simp add: case_prod_beta)
  have u1: "?h2[length h := snd (schema (ctor ()))] ! length h = snd (schema (ctor ()))"
    by (simp add: nth_append)
  have u2: "?h2[length h := snd (schema (ctor ()))] ! Suc (length h) = ctor ()"
    by (simp add: nth_append)
  have v1: "?h2[Suc (length h) := snd (schema (ctor ()))] ! Suc (length h)
      = snd (schema (ctor ()))"
    by (simp add: nth_append)
  have v2: "?h2[Suc (length h) := snd (schema (ctor ()))] ! length h = ctor ()"
    by (simp add: nth_append)
  show ?thesis
    apply (rule exI [of _ "length h"])
    apply (rule exI [of _ ?h1])
    apply (rule exI [of _ "Suc (length h)"])
    apply (rule exI [of _ ?h2])
    using g1 g2 n1 n2 s1 s2 u1 u2 v1 v2 by simp
qed

text \<open>
  Two lookups of \<^verbatim>\<open>dummy\<close> on the empty heap give the objects 0 and 1; after
  \<^verbatim>\<open>schema\<close> is read on object 0, its cache is set and the cache of object 1 is
  still unset.
\<close>

theorem get_notifier_fresh_instances_witness:
  "DAList.lookup example_providers ''dummy'' = Some (\<lambda>_. dummy)
   \<and> get_notifier example_providers ''dummy'' [] = (Some 0, [dummy])
   \<and> get_notifier example_providers ''dummy'' [dummy] = (Some 1, [dummy, dummy])
   \<and> (\<exists>m h3. schema_at 0 [dummy, dummy] = Some (m, h3)
         \<and> merged_schema (h3 ! 0) = Some m
         \<and> merged_schema (h3 ! 1) = None)"
proof -
  have l1: "DAList.lookup example_providers ''dummy'' = Some (\<lambda>_. dummy)"
    by (simp add: example_providers_def)
  have g1: "get_notifier example_providers ''dummy'' [] = (Some 0, [dummy])"
    using l1 by (simp add: get_notifier_def)
  have g2: "get_notifier example_providers ''dummy'' [dummy] = (Some 1, [dummy, dummy])"
    using l1 by (simp add: get_notifier_def)
  from get_notifier_fresh_instances [OF l1, of "[]"] g1 g2
  have "\<exists>m h3. schema_at 0 [dummy, dummy] = Some (m, h3)
         \<and> m = fst (schema dummy)
         \<and> h3 ! 0 = snd (schema dummy)
         \<and> h3 ! 1 = dummy"
    by auto
  then obtain m h3 where s: "schema_at 0 [dummy, dummy] = Some (m, h3)"
    and m: "m = fst (schema dummy)" and h30: "h3 ! 0 = snd (schema dummy)"
    and h31: "h3 ! 1 = dummy"
    by blast
  have c0: "merged_schema (snd (schema dummy)) = Some (fst (schema dummy))"
    by (simp add: schema_def dummy_def Let_def)
  have c1: "merged_schema dummy = None" by (simp add: dummy_def)
  from s m h30 h31 c0 c1 have "schema_at 0 [dummy, dummy] = Some (m, h3)
         \<and> merged_schema (h3 ! 0) = Some m
         \<and> merged_schema (h3 ! 1) = None"
    by simp
  then have "\<exists>m h3. schema_at 0 [dummy, dummy] = Some (m, h3)
         \<and> merged_schema (h3 ! 0) = Some m
         \<and> merged_schema (h3 ! 1) = None"
    by blast
  with l1 g1 g2 show ?thesis by blast
qed

end
